theory Spec2Isabelle
  imports Main "HOL-Library.Sublist"
begin

section \<open>The Mercantile Bank scraper (src/Scraper.js)\<close>

text \<open>
  The scraper drives a browser through the puppeteer library. The library, the browser
  and the bank's site are outside the program, so they appear here as an oracle
  (\<open>world\<close>) that decides, for every call the program makes, whether the call completes or
  throws, and which page events fire while the program waits for it. Everything the
  program does that can be observed from outside (library calls with their arguments,
  console output, timers, process exit) is recorded in a trace.
\<close>

subsection \<open>Values, calls and the trace\<close>

text \<open>
  A thrown JavaScript value: an \<open>Error\<close> object with its name and message, or any other
  value, kept as its \<open>String(...)\<close> rendering.
\<close>

datatype js_value = JsError (err_name: string) (err_message: string) | JsOther (rendered: string)

text \<open>\<^verbatim>\<open>error instanceof Error ? error.message : String(error)\<close>\<close>

definition message_of :: "js_value \<Rightarrow> string" where
  "message_of error = (case error of JsError n m \<Rightarrow> m | JsOther v \<Rightarrow> v)"

datatype js_null = Null

record launch_options =
  lo_headless :: bool
  lo_defaultViewport :: js_null
  lo_args :: "string list"
  lo_devtools :: "bool option"
  lo_slowMo :: "nat option"

text \<open>
  The calls into puppeteer, with the arguments the source passes. The text typed into a
  field is a \<open>string option\<close>: it is read from \<open>process.env\<close>, where an unset variable is
  \<open>undefined\<close>.
\<close>

datatype call =
    Launch launch_options
  | NewPage
  | SetDefaultTimeout nat
  | On string
  | Goto string string nat
  | Screenshot string
  | Type string "string option" nat
  | Click string
  | WaitForNavigation string
  | BrowserClose

datatype arg = S string | V js_value

datatype event =
    Call call
  | ConsoleLog "arg list"
  | ConsoleError "arg list"
  | Sleep nat
  | ProcessExit nat

text \<open>What the page can emit while the program awaits a call (lines 66 to 80 listen for these).\<close>

datatype page_event =
    PConsole string
  | PPageError string
  | PError string
  | PRequest string string
  | PResponse nat string

text \<open>
  The world outside the program: whether a call completes (\<open>None\<close>) or throws, the page
  events that fire while the program awaits a call, and those that fire while it sleeps.
  The world answers a call by the call and its arguments: its answer is taken not to
  depend on the calls made before.
\<close>

record world =
  respond :: "call \<Rightarrow> js_value option"
  page_events :: "call \<Rightarrow> page_event list"
  timer_events :: "nat \<Rightarrow> page_event list"

subsection \<open>The Scraper object\<close>

text \<open>
  The fields of the class (lines 23 to 29). Of the page the object holds, the model keeps
  what the program configures on it: the default timeout and the event listeners. The
  browser handle remembers the options it was launched with.
\<close>

record page =
  default_timeout :: "nat option"
  listeners :: "string list"

datatype browser = Browser launch_options

record scraper =
  browser :: "browser option"
  page :: "page option"
  debug :: bool
  headless :: bool

text \<open>The constructor's argument; a key that is left out is \<open>None\<close>.\<close>

record options =
  opt_debug :: "bool option"
  opt_headless :: "bool option"

text \<open>
  The module's object \<open>credentials\<close> (lines 5 to 9), read from \<open>process.env\<close>; \<open>login\<close> and
  \<open>main\<close> take it as an argument here.
\<close>

record credentials =
  id' :: "string option"
  password :: "string option"
  code :: "string option"

subsection \<open>Statements: state, exceptions and trace\<close>

text \<open>
  A statement takes the object \<open>this\<close> and returns whether it completed (\<open>Inr ()\<close>) or
  threw (\<open>Inl error\<close>), the updated object and the events it produced.
\<close>

type_synonym step = "scraper \<Rightarrow> (js_value + unit) \<times> scraper \<times> event list"

definition skip :: step where
  "skip this = (Inr (), this, [])"

definition throw :: "js_value \<Rightarrow> step" where
  "throw error this = (Inl error, this, [])"

definition emit :: "event list \<Rightarrow> step" where
  "emit evs this = (Inr (), this, evs)"

definition assign :: "(scraper \<Rightarrow> scraper) \<Rightarrow> step" where
  "assign f this = (Inr (), f this, [])"

definition seq :: "step \<Rightarrow> step \<Rightarrow> step" where
  "seq m n this =
     (case m this of
        (Inl error, this', t) \<Rightarrow> (Inl error, this', t)
      | (Inr u, this', t) \<Rightarrow> (case n this' of (r, this'', t') \<Rightarrow> (r, this'', t @ t')))"

fun block :: "step list \<Rightarrow> step" where
  "block [] = skip"
| "block (m # ms) = seq m (block ms)"

definition when' :: "(scraper \<Rightarrow> bool) \<Rightarrow> step \<Rightarrow> step" where
  "when' c m this = (if c this then m this else skip this)"

definition try_catch :: "step \<Rightarrow> (js_value \<Rightarrow> step) \<Rightarrow> step" where
  "try_catch body handler this =
     (case body this of
        (Inl error, this', t) \<Rightarrow>
          (case handler error this' of (r, this'', t') \<Rightarrow> (r, this'', t @ t'))
      | (Inr u, this', t) \<Rightarrow> (Inr u, this', t))"

text \<open>\<^verbatim>\<open>log(...args) { if (this.debug) console.log('[DEBUG]', ...args) }\<close>\<close>

definition log :: "arg list \<Rightarrow> step" where
  "log args this =
     (Inr (), this, if debug this then [ConsoleLog (S ''[DEBUG]'' # args)] else [])"

text \<open>The listeners of lines 66 to 80: the event each one is registered for and what it logs.\<close>

definition digit :: "nat \<Rightarrow> char" where
  "digit n = ''0123456789'' ! (n mod 10)"

fun decimal :: "nat \<Rightarrow> string" where
  "decimal n = (if n < 10 then [digit n] else decimal (n div 10) @ [digit n])"

fun event_name :: "page_event \<Rightarrow> string" where
  "event_name (PConsole text) = ''console''"
| "event_name (PPageError m) = ''pageerror''"
| "event_name (PError m) = ''error''"
| "event_name (PRequest method url) = ''request''"
| "event_name (PResponse status url) = ''response''"

fun event_line :: "page_event \<Rightarrow> string" where
  "event_line (PConsole text) = ''CONSOLE: '' @ text"
| "event_line (PPageError m) = ''PAGE ERROR: '' @ m"
| "event_line (PError m) = ''ERROR: '' @ m"
| "event_line (PRequest method url) = ''REQUEST: '' @ method @ '' '' @ url"
| "event_line (PResponse status url) = ''RESPONSE: '' @ decimal status @ '' '' @ url"

text \<open>
  Page events reach the program only through the listeners registered on the page; each
  listener calls \<open>this.log\<close>.
\<close>

definition deliver :: "scraper \<Rightarrow> page_event list \<Rightarrow> event list" where
  "deliver this evs =
     (case page this of
        None \<Rightarrow> []
      | Some p \<Rightarrow>
          concat (map (\<lambda>ev. if event_name ev \<in> set (listeners p)
                             then snd (snd (log [S (event_line ev)] this)) else []) evs))"

text \<open>An awaited library call: the call is made, page events may fire while it is pending.\<close>

definition await_call :: "world \<Rightarrow> call \<Rightarrow> step" where
  "await_call w c this =
     ((case respond w c of None \<Rightarrow> Inr () | Some error \<Rightarrow> Inl error),
      this, Call c # deliver this (page_events w c))"

text \<open>A synchronous library call (\<open>setDefaultTimeout\<close>, \<open>on\<close>).\<close>

definition sync_call :: "world \<Rightarrow> call \<Rightarrow> step" where
  "sync_call w c this =
     ((case respond w c of None \<Rightarrow> Inr () | Some error \<Rightarrow> Inl error), this, [Call c])"

text \<open>\<^verbatim>\<open>await new Promise(resolve => setTimeout(resolve, ms))\<close>\<close>

definition sleep :: "world \<Rightarrow> nat \<Rightarrow> step" where
  "sleep w ms this = (Inr (), this, Sleep ms # deliver this (timer_events w ms))"

subsection \<open>constructor\<close>

text \<open>
  \<open>options.debug || false\<close> and \<open>options.headless !== false\<close>, then
  \<open>this.log('Debug mode enabled')\<close>. The constructor returns the object and what it logged.
\<close>

definition constructor :: "options \<Rightarrow> scraper \<times> event list" where
  "constructor opts =
     (let this = \<lparr>browser = None, page = None,
                  debug = (opt_debug opts = Some True),
                  headless = (opt_headless opts \<noteq> Some False)\<rparr>
      in (this, snd (snd (log [S ''Debug mode enabled''] this))))"

subsection \<open>initialize\<close>

text \<open>
  The object literal of lines 39 to 48: the spread of \<open>this.debug && {...}\<close> overrides
  \<open>headless\<close> and adds \<open>devtools\<close> and \<open>slowMo\<close> when debug is on, and adds nothing otherwise.
\<close>

definition launchOptions :: "scraper \<Rightarrow> launch_options" where
  "launchOptions this =
     (if debug this
      then \<lparr>lo_headless = False, lo_defaultViewport = Null, lo_args = [''--start-maximized''],
            lo_devtools = Some True, lo_slowMo = Some 50\<rparr>
      else \<lparr>lo_headless = headless this, lo_defaultViewport = Null,
            lo_args = [''--start-maximized''], lo_devtools = None, lo_slowMo = None\<rparr>)"

text \<open>\<open>JSON.stringify(launchOptions, null, 2)\<close>, for the keys this object can have.\<close>

definition json_bool :: "bool \<Rightarrow> string" where
  "json_bool b = (if b then ''true'' else ''false'')"

definition json_strings :: "string list \<Rightarrow> string" where
  \<open>json_strings xs =
     (case xs of
        [] \<Rightarrow> ''[]''
      | y # ys \<Rightarrow>
          ''['' @ concat (map (\<lambda>x. ''\<newline>    "'' @ x @ ''",'') (butlast xs))
            @ ''\<newline>    "'' @ last xs @ ''"\<newline>  ]'')\<close>

definition stringify :: "launch_options \<Rightarrow> string" where
  \<open>stringify lo =
     ''{\<newline>  "headless": '' @ json_bool (lo_headless lo)
     @ '',\<newline>  "defaultViewport": null''
     @ '',\<newline>  "args": '' @ json_strings (lo_args lo)
     @ (case lo_devtools lo of None \<Rightarrow> [] | Some b \<Rightarrow> '',\<newline>  "devtools": '' @ json_bool b)
     @ (case lo_slowMo lo of None \<Rightarrow> [] | Some n \<Rightarrow> '',\<newline>  "slowMo": '' @ decimal n)
     @ ''\<newline>}''\<close>

definition new_page :: page where
  "new_page = \<lparr>default_timeout = None, listeners = []\<rparr>"

definition set_default_timeout :: "nat \<Rightarrow> scraper \<Rightarrow> scraper" where
  "set_default_timeout ms this =
     this\<lparr>page := map_option (\<lambda>p. p\<lparr>default_timeout := Some ms\<rparr>) (page this)\<rparr>"

definition add_listener :: "string \<Rightarrow> scraper \<Rightarrow> scraper" where
  "add_listener name this =
     this\<lparr>page := map_option (\<lambda>p. p\<lparr>listeners := listeners p @ [name]\<rparr>) (page this)\<rparr>"

text \<open>\<open>this.page.on(name, handler)\<close>\<close>

definition page_on :: "world \<Rightarrow> string \<Rightarrow> step" where
  "page_on w name = seq (sync_call w (On name)) (assign (add_listener name))"

text \<open>The screenshot taken in both catch blocks (lines 86 to 90 and 158 to 162).\<close>

definition error_screenshot :: "world \<Rightarrow> step" where
  "error_screenshot w =
     when' (\<lambda>this. debug this \<and> page this \<noteq> None)
       (block [await_call w (Screenshot ''debug-error.png''),
               log [S ''Error screenshot saved as debug-error.png'']])"

text \<open>Lines 63 to 81: the page's events are logged if debug is on.\<close>

definition enable_logging :: "world \<Rightarrow> step" where
  "enable_logging w =
     when' debug
       (block
          [page_on w ''console'',
           page_on w ''pageerror'',
           page_on w ''error'',
           page_on w ''request'',
           page_on w ''response''])"

text \<open>
  Lines 52 to 93: the try block of \<open>initialize\<close> and its handler. The launch options are
  computed before the block is entered.
\<close>

definition initialize_try :: "world \<Rightarrow> launch_options \<Rightarrow> step" where
  "initialize_try w launchOptions' =
     block
       [await_call w (Launch launchOptions'),
        assign (\<lambda>this. this\<lparr>browser := Some (Browser launchOptions')\<rparr>),
        log [S ''Browser launched successfully''],
        await_call w NewPage,
        assign (\<lambda>this. this\<lparr>page := Some new_page\<rparr>),
        log [S ''New page created''],
        sync_call w (SetDefaultTimeout 30000),
        assign (set_default_timeout 30000),
        enable_logging w]"

definition initialize_catch :: "world \<Rightarrow> js_value \<Rightarrow> step" where
  "initialize_catch w error =
     block
       [log [S (''Error during initialization: '' @ message_of error)],
        error_screenshot w,
        throw error]"

definition initialize :: "world \<Rightarrow> step" where
  "initialize w this =
     block
       [log [S ''Initializing browser...''],
        log [S ''Launch options:'', S (stringify (launchOptions this))],
        try_catch (initialize_try w (launchOptions this)) (initialize_catch w)]
       this"

subsection \<open>login\<close>

text \<open>
  Lines 96 to 166. The guard comes first; then the try block, of which \<open>login_try\<close> is the
  body and \<open>login_catch\<close> the handler.
\<close>

definition login_url :: string where
  "login_url = ''https://start.telebank.co.il/login/?bank=m''"

definition submit_button :: string where
  \<open>submit_button = ''.login-form button[type="submit"]''\<close>

definition not_initialized :: string where
  "not_initialized = ''Page not initialized. Call initialize() first.''"

definition login_try :: "world \<Rightarrow> credentials \<Rightarrow> step" where
  "login_try w credentials =
     block
       [log [S ''Navigating to login page...''],
        await_call w (Goto login_url ''networkidle2'' 60000),
        log [S ''Login page loaded''],
        when' debug
          (block [await_call w (Screenshot ''debug-login-page.png''),
                  log [S ''Screenshot saved as debug-login-page.png'']]),
        log [S ''Entering credentials...''],
        await_call w (Type ''input#tzId'' (id' credentials) 50),
        log [S ''Entered ID''],
        await_call w (Type ''input#tzPassword'' (password credentials) 50),
        log [S ''Entered password''],
        await_call w (Type ''input#aidnum'' (code credentials) 50),
        log [S ''Entered code''],
        log [S ''Successfully entered all credentials''],
        when' debug
          (block [await_call w (Screenshot ''debug-credentials-entered.png''),
                  log [S ''Screenshot after entering credentials saved as debug-credentials-entered.png'']]),
        log [S ''Clicking login button...''],
        await_call w (Click submit_button),
        log [S ''Login button clicked''],
        log [S ''Waiting for navigation...''],
        await_call w (WaitForNavigation ''networkidle2''),
        log [S ''Navigation complete''],
        when' debug
          (block [await_call w (Screenshot ''debug-after-login.png''),
                  log [S ''Screenshot after login saved as debug-after-login.png'']])]"

definition login_catch :: "world \<Rightarrow> js_value \<Rightarrow> step" where
  "login_catch w error =
     block
       [log [S (''Error during login: '' @ message_of error)],
        error_screenshot w,
        throw error]"

definition login :: "world \<Rightarrow> credentials \<Rightarrow> step" where
  "login w credentials this =
     (if page this = None
      then block [log [S not_initialized], throw (JsError ''Error'' not_initialized)] this
      else try_catch (login_try w credentials) (login_catch w) this)"

subsection \<open>close\<close>

text \<open>\<^verbatim>\<open>if (this.browser) { await this.browser.close(); }\<close>\<close>

definition close :: "world \<Rightarrow> step" where
  "close w = when' (\<lambda>this. browser this \<noteq> None) (await_call w BrowserClose)"

subsection \<open>main and the module's top level\<close>

text \<open>
  How the process ends: \<open>main\<close>'s promise resolves, it rejects (nothing catches what
  the \<open>finally\<close> block throws), or \<open>process.exit\<close> ends the process on the spot.
\<close>

datatype outcome = Returned | Rejected js_value | Exited nat

text \<open>Lines 176 to 198: the try block of \<open>main\<close> and its \<open>finally\<close> block.\<close>

definition main_try :: "world \<Rightarrow> credentials \<Rightarrow> step" where
  "main_try w credentials =
     block
       [initialize w,
        login w credentials,
        emit [ConsoleLog [S ''Keeping browser open for 30 seconds...'']],
        sleep w 30000]"

definition main_finally :: "world \<Rightarrow> step" where
  "main_finally w =
     block
       [emit [ConsoleLog [S ''Closing browser...'']],
        close w,
        emit [ConsoleLog [S ''Browser closed'']]]"

text \<open>
  \<open>process.exit(1)\<close> in the catch block ends the process there: the \<open>finally\<close> block runs
  only when the try block completed.
\<close>

definition main :: "world \<Rightarrow> credentials \<Rightarrow> outcome \<times> event list" where
  "main w credentials =
     (case constructor \<lparr>opt_debug = Some True, opt_headless = Some False\<rparr> of
        (scraper, t0) \<Rightarrow>
          (case main_try w credentials scraper of
             (Inl error, scraper', t1) \<Rightarrow>
               (Exited 1,
                t0 @ t1 @ [ConsoleError [S ''An error occurred:'', V error], ProcessExit 1])
           | (Inr u, scraper', t1) \<Rightarrow>
               (case main_finally w scraper' of
                  (Inl error, scraper'', t2) \<Rightarrow> (Rejected error, t0 @ t1 @ t2)
                | (Inr u', scraper'', t2) \<Rightarrow> (Returned, t0 @ t1 @ t2))))"

definition requiredEnvVars :: "string list" where
  "requiredEnvVars = [''CREDENTIALS_ID'', ''CREDENTIALS_PASSWORD'', ''CREDENTIALS_CODE'']"

text \<open>\<open>!process.env[varName]\<close>: true for an unset variable and for an empty one.\<close>

definition falsy :: "string option \<Rightarrow> bool" where
  "falsy v = (case v of None \<Rightarrow> True | Some x \<Rightarrow> x = [])"

definition missingVars :: "(string \<Rightarrow> string option) \<Rightarrow> string list" where
  "missingVars env = filter (\<lambda>varName. falsy (env varName)) requiredEnvVars"

text \<open>Lines 4 to 20 and 201: what running the file does, given \<open>process.env\<close>.\<close>

definition program :: "(string \<Rightarrow> string option) \<Rightarrow> world \<Rightarrow> outcome \<times> event list" where
  "program env w =
     (let credentials = \<lparr>id' = env ''CREDENTIALS_ID'',
                         password = env ''CREDENTIALS_PASSWORD'',
                         code = env ''CREDENTIALS_CODE''\<rparr>
      in if length (missingVars env) > 0
         then (Exited 1,
               [ConsoleError [S ''Error: Missing required environment variables:'']]
               @ map (\<lambda>varName. ConsoleError [S (''- '' @ varName)]) (missingVars env)
               @ [ConsoleError [S ''\<newline>Please copy .env.example to .env and fill in your credentials''],
                  ProcessExit 1])
         else main w credentials)"

subsection \<open>Reading a run\<close>

text \<open>The three parts of what a statement returns, and the library calls of a trace.\<close>

abbreviation result :: "(js_value + unit) \<times> scraper \<times> event list \<Rightarrow> js_value + unit" where
  "result x \<equiv> fst x"

abbreviation state :: "(js_value + unit) \<times> scraper \<times> event list \<Rightarrow> scraper" where
  "state x \<equiv> fst (snd x)"

abbreviation trace :: "(js_value + unit) \<times> scraper \<times> event list \<Rightarrow> event list" where
  "trace x \<equiv> snd (snd x)"

definition calls :: "event list \<Rightarrow> call list" where
  "calls t = concat (map (\<lambda>e. case e of Call c \<Rightarrow> [c] | _ \<Rightarrow> []) t)"

section \<open>The vocabulary of the claims\<close>

subsection \<open>The calls of login\<close>

text \<open>
  The sequence the specification describes for \<open>login\<close>: navigate, type the three
  credentials, submit, wait.
\<close>

definition login_sequence :: "credentials \<Rightarrow> call list" where
  "login_sequence credentials =
     [Goto login_url ''networkidle2'' 60000,
      Type ''input#tzId'' (id' credentials) 50,
      Type ''input#tzPassword'' (password credentials) 50,
      Type ''input#aidnum'' (code credentials) 50,
      Click submit_button,
      WaitForNavigation ''networkidle2'']"

fun is_screenshot :: "call \<Rightarrow> bool" where
  "is_screenshot (Screenshot path) = True"
| "is_screenshot c = False"

fun is_goto :: "call \<Rightarrow> bool" where
  "is_goto (Goto url waitUntil timeout) = True"
| "is_goto c = False"

fun is_click :: "call \<Rightarrow> bool" where
  "is_click (Click selector) = True"
| "is_click c = False"

text \<open>The calls of a trace other than its screenshots.\<close>

definition interactions :: "event list \<Rightarrow> call list" where
  "interactions t = filter (\<lambda>c. \<not> is_screenshot c) (calls t)"

text \<open>
  The calls in the try block of \<open>login\<close>, in program order, with the screenshots that
  debug mode adds.
\<close>

definition login_calls :: "bool \<Rightarrow> credentials \<Rightarrow> call list" where
  "login_calls d credentials =
     [Goto login_url ''networkidle2'' 60000]
     @ (if d then [Screenshot ''debug-login-page.png''] else [])
     @ [Type ''input#tzId'' (id' credentials) 50,
        Type ''input#tzPassword'' (password credentials) 50,
        Type ''input#aidnum'' (code credentials) 50]
     @ (if d then [Screenshot ''debug-credentials-entered.png''] else [])
     @ [Click submit_button, WaitForNavigation ''networkidle2'']
     @ (if d then [Screenshot ''debug-after-login.png''] else [])"

text \<open>
  Making a list of calls one after the other until one throws: the error that ends it,
  and the calls made (the failing one included).
\<close>

fun first_error :: "world \<Rightarrow> call list \<Rightarrow> js_value option" where
  "first_error w [] = None"
| "first_error w (c # cs) = (case respond w c of Some error \<Rightarrow> Some error | None \<Rightarrow> first_error w cs)"

fun performed :: "world \<Rightarrow> call list \<Rightarrow> call list" where
  "performed w [] = []"
| "performed w (c # cs) = c # (case respond w c of Some error \<Rightarrow> [] | None \<Rightarrow> performed w cs)"

definition completion :: "js_value option \<Rightarrow> js_value + unit" where
  "completion r = (case r of None \<Rightarrow> Inr () | Some error \<Rightarrow> Inl error)"

text \<open>
  From the object \<open>s\<close>, the statement \<open>m\<close> does just that with the calls \<open>cs\<close> and leaves the
  object alone.
\<close>

definition performs :: "world \<Rightarrow> scraper \<Rightarrow> step \<Rightarrow> call list \<Rightarrow> bool" where
  "performs w s m cs =
     (state (m s) = s \<and> result (m s) = completion (first_error w cs)
      \<and> calls (trace (m s)) = performed w cs)"

text \<open>Every call a statement makes, from any object, satisfies \<open>P\<close>.\<close>

definition only :: "(call \<Rightarrow> bool) \<Rightarrow> step \<Rightarrow> bool" where
  "only P m = (\<forall>s. list_all P (calls (trace (m s))))"

subsection \<open>Timeouts\<close>




subsection \<open>Kinds of authentication failure\<close>

text \<open>
  The names the specification gives to the three kinds of authentication failure
  (taken from the specification's wording, to compare with what \<open>login\<close> throws).
\<close>

definition spec_authentication_kinds :: "string list" where
  "spec_authentication_kinds =
     [''AuthenticationFailed'', ''AuthenticationTimeout'', ''AuthenticationUIError'']"

subsection \<open>Credentials in what a run shows\<close>






subsection \<open>Debug mode\<close>

text \<open>
  The calls that drive the browser, as opposed to those debug mode adds or alters:
  screenshots, event listeners, and the launch with its options.
\<close>

fun is_on :: "call \<Rightarrow> bool" where
  "is_on (On name) = True"
| "is_on c = False"

fun is_launch :: "call \<Rightarrow> bool" where
  "is_launch (Launch lo) = True"
| "is_launch c = False"

definition essential :: "event list \<Rightarrow> call list" where
  "essential t = filter (\<lambda>c. \<not> is_screenshot c \<and> \<not> is_on c \<and> \<not> is_launch c) (calls t)"

text \<open>Two objects at the same point of a run, one in debug mode and one not.\<close>

definition debug_pair :: "scraper \<Rightarrow> scraper \<Rightarrow> bool" where
  "debug_pair s t =
     (debug s \<and> \<not> debug t \<and> (browser s = None) = (browser t = None)
      \<and> (page s = None) = (page t = None))"

subsection \<open>Runs that correspond\<close>

text \<open>
  Two statements correspond under a relation \<open>R\<close> on objects and a view \<open>E\<close> of traces
  when, started from related objects, they end the same way, in related objects, with
  traces that look the same through \<open>E\<close>. A view is compositional when the view of a
  concatenation is determined by the views of its parts.
\<close>

definition compositional :: "(event list \<Rightarrow> 'a) \<Rightarrow> bool" where
  "compositional E = (\<forall>t t' u u'. E t = E t' \<and> E u = E u' \<longrightarrow> E (t @ u) = E (t' @ u'))"

definition related :: "(scraper \<Rightarrow> scraper \<Rightarrow> bool) \<Rightarrow> (event list \<Rightarrow> 'a) \<Rightarrow> step \<Rightarrow> step \<Rightarrow> bool" where
  "related R E m n =
     (\<forall>s t. R s t \<longrightarrow>
        result (m s) = result (n t) \<and> R (state (m s)) (state (n t)) \<and> E (trace (m s)) = E (trace (n t)))"

subsection \<open>Concrete environments\<close>

text \<open>A world in which every call completes and the page stays silent.\<close>

definition quiet_world :: world where
  "quiet_world = \<lparr>respond = (\<lambda>c. None), page_events = (\<lambda>c. []), timer_events = (\<lambda>ms. [])\<rparr>"

definition sample_credentials :: credentials where
  "sample_credentials = \<lparr>id' = Some ''123456789'', password = Some ''hunter2'', code = Some ''4321''\<rparr>"


text \<open>\<open>new Scraper({debug: d})\<close>, and the same object once \<open>initialize()\<close> has completed.\<close>

definition fresh :: "bool \<Rightarrow> scraper" where
  "fresh d = fst (constructor \<lparr>opt_debug = Some d, opt_headless = None\<rparr>)"

text \<open>The object \<open>main\<close> creates: \<open>new Scraper({debug: true, headless: false})\<close>.\<close>

definition main_scraper :: scraper where
  "main_scraper = fst (constructor \<lparr>opt_debug = Some True, opt_headless = Some False\<rparr>)"

definition ready :: "bool \<Rightarrow> scraper" where
  "ready d = state (initialize quiet_world (fresh d))"

text \<open>A \<open>process.env\<close> in which only the identifier is set.\<close>

definition partial_env :: "string \<Rightarrow> string option" where
  "partial_env varName = (if varName = ''CREDENTIALS_ID'' then Some ''123456789'' else None)"

text \<open>The bank's site does not answer: \<open>page.goto\<close> gives up after its 60 seconds.\<close>

definition navigation_timeout :: js_value where
  "navigation_timeout = JsError ''TimeoutError'' ''Navigation timeout of 60000 ms exceeded''"

definition unreachable_site :: world where
  "unreachable_site =
     quiet_world\<lparr>respond := (\<lambda>c. if is_goto c then Some navigation_timeout else None)\<rparr>"

text \<open>The browser has gone away: \<open>browser.close()\<close> rejects.\<close>

definition connection_closed :: js_value where
  "connection_closed = JsError ''Error'' ''Protocol error: Connection closed.''"

definition lost_browser :: world where
  "lost_browser =
     quiet_world\<lparr>respond := (\<lambda>c. if c = BrowserClose then Some connection_closed else None)\<rparr>"

text \<open>Chrome is not installed: \<open>puppeteer.launch\<close> rejects.\<close>

definition launch_failure :: js_value where
  "launch_failure = JsError ''Error'' ''Failed to launch the browser process!''"

definition no_chrome :: world where
  "no_chrome =
     quiet_world\<lparr>respond := (\<lambda>c. case c of Launch lo \<Rightarrow> Some launch_failure | _ \<Rightarrow> None)\<rparr>"

text \<open>The bank changed its form: the identifier field is not there.\<close>

definition no_element :: js_value where
  "no_element = JsError ''Error'' ''No element found for selector: input#tzId''"

definition changed_form :: world where
  "changed_form =
     quiet_world\<lparr>respond := (\<lambda>c. case c of
                                     Type selector text delay \<Rightarrow>
                                       if selector = ''input#tzId'' then Some no_element else None
                                   | _ \<Rightarrow> None)\<rparr>"


text \<open>The disk is full: every screenshot fails.\<close>

definition disk_full :: js_value where
  "disk_full = JsError ''Error'' ''ENOSPC: no space left on device''"

definition full_disk :: world where
  "full_disk =
     quiet_world\<lparr>respond := (\<lambda>c. if is_screenshot c then Some disk_full else None)\<rparr>"

section \<open>The extraction pipeline\<close>

text \<open>
  Modelled from the spec: the Extraction Pipeline of sections 3 and 4.3. The code that
  reads the account views after the login (the pipeline and its steps) is missing from
  the source files at hand: \<open>Scraper.js\<close> ends with \<open>login\<close>. The error taxonomy per step
  is ElementNotFound, ExtractionTimeout and ParseError.
\<close>

datatype extraction_error = ElementNotFound | ExtractionTimeout | ParseError

text \<open>
  Modelled from the spec: an Extraction Step is a named unit of work that locates raw
  content in the session and parses it into a structured value, or fails
  (section 3, and the capability \<open>{locate, parse}\<close> of section 9).
\<close>

record ('session, 'raw, 'value) extraction_step =
  step_name :: string
  locate :: "'session \<Rightarrow> extraction_error + 'raw"
  parse :: "'raw \<Rightarrow> extraction_error + 'value"

text \<open>
  Modelled from the spec: running one step gives its value or its error; the error is
  recorded, not thrown.
\<close>

definition run_step ::
  "('session, 'raw, 'value) extraction_step \<Rightarrow> 'session \<Rightarrow> extraction_error + 'value" where
  "run_step st session =
     (case locate st session of Inl error \<Rightarrow> Inl error | Inr raw \<Rightarrow> parse st raw)"

text \<open>
  Modelled from the spec: \<open>runAll(session)\<close> executes the ordered list of steps against the
  one session and builds, step by step, the mapping from view name to that view's value
  or error marker.
\<close>

definition record_step ::
  "'session \<Rightarrow> (string \<rightharpoonup> extraction_error + 'value)
     \<Rightarrow> ('session, 'raw, 'value) extraction_step
     \<Rightarrow> (string \<rightharpoonup> extraction_error + 'value)" where
  "record_step session scrape_result st = scrape_result(step_name st \<mapsto> run_step st session)"

definition runAll ::
  "('session, 'raw, 'value) extraction_step list \<Rightarrow> 'session
     \<Rightarrow> (string \<rightharpoonup> extraction_error + 'value)" where
  "runAll steps session = foldl (record_step session) Map.empty steps"

text \<open>Three views of one session; the account holder has no loans.\<close>

definition view :: "string \<Rightarrow> (string, string, nat) extraction_step" where
  "view name' = \<lparr>step_name = name', locate = (\<lambda>session. Inr (session @ name')),
                  parse = (\<lambda>raw. Inr (length raw))\<rparr>"

definition absent_view :: "string \<Rightarrow> (string, string, nat) extraction_step" where
  "absent_view name' = \<lparr>step_name = name', locate = (\<lambda>session. Inl ElementNotFound),
                         parse = (\<lambda>raw. Inr (length raw))\<rparr>"

section \<open>Lemmas\<close>

subsection \<open>Projections of the statement forms\<close>

lemma calls_simps [simp]:
  "calls [] = []"
  "calls (Call c # t) = c # calls t"
  "calls (ConsoleLog a # t) = calls t"
  "calls (ConsoleError a # t) = calls t"
  "calls (Sleep n # t) = calls t"
  "calls (ProcessExit n # t) = calls t"
  "calls (t @ u) = calls t @ calls u"
  by (simp_all add: calls_def)

lemma calls_deliver [simp]: "calls (deliver this evs) = []"
  unfolding deliver_def
  by (cases "page this"; induction evs) (simp_all add: log_def)

lemma seq_result: "result (seq m n s) = (case result (m s) of Inl e \<Rightarrow> Inl e | Inr u \<Rightarrow> result (n (state (m s))))"
  and seq_state: "state (seq m n s) = (case result (m s) of Inl e \<Rightarrow> state (m s) | Inr u \<Rightarrow> state (n (state (m s))))"
  and seq_trace: "trace (seq m n s) = trace (m s) @ (case result (m s) of Inl e \<Rightarrow> [] | Inr u \<Rightarrow> trace (n (state (m s))))"
  by (auto simp: seq_def split: prod.splits sum.splits)

lemma try_result: "result (try_catch m h s) = (case result (m s) of Inl e \<Rightarrow> result (h e (state (m s))) | Inr u \<Rightarrow> Inr u)"
  and try_state: "state (try_catch m h s) = (case result (m s) of Inl e \<Rightarrow> state (h e (state (m s))) | Inr u \<Rightarrow> state (m s))"
  and try_trace: "trace (try_catch m h s) = trace (m s) @ (case result (m s) of Inl e \<Rightarrow> trace (h e (state (m s))) | Inr u \<Rightarrow> [])"
  by (auto simp: try_catch_def split: prod.splits sum.splits)

lemma log_proj: "result (log a s) = Inr ()" "state (log a s) = s" "calls (trace (log a s)) = []"
  by (simp_all add: log_def)

lemma await_proj:
  "result (await_call w c s) = (case respond w c of None \<Rightarrow> Inr () | Some e \<Rightarrow> Inl e)"
  "state (await_call w c s) = s"
  "calls (trace (await_call w c s)) = [c]"
  by (simp_all add: await_call_def)

lemma sync_proj:
  "result (sync_call w c s) = (case respond w c of None \<Rightarrow> Inr () | Some e \<Rightarrow> Inl e)"
  "state (sync_call w c s) = s"
  "trace (sync_call w c s) = [Call c]"
  by (simp_all add: sync_call_def)

lemma misc_proj:
  "result (skip s) = Inr ()" "state (skip s) = s" "trace (skip s) = []"
  "result (throw e s) = Inl e" "state (throw e s) = s" "trace (throw e s) = []"
  "result (emit evs s) = Inr ()" "state (emit evs s) = s" "trace (emit evs s) = evs"
  "result (assign f s) = Inr ()" "state (assign f s) = f s" "trace (assign f s) = []"
  "result (sleep w n s) = Inr ()" "state (sleep w n s) = s" "calls (trace (sleep w n s)) = []"
  by (simp_all add: skip_def throw_def emit_def assign_def sleep_def)

lemmas proj = seq_result seq_state seq_trace try_result try_state try_trace log_proj await_proj
  sync_proj misc_proj when'_def

subsection \<open>Statements that only log and call\<close>

lemma first_error_append:
  "first_error w (cs @ ds) = (case first_error w cs of Some e \<Rightarrow> Some e | None \<Rightarrow> first_error w ds)"
  by (induction cs) (simp_all split: option.splits)

lemma performed_append:
  "performed w (cs @ ds) = performed w cs @ (case first_error w cs of Some e \<Rightarrow> [] | None \<Rightarrow> performed w ds)"
  by (induction cs) (simp_all split: option.splits)

lemma performed_prefix: "prefix (performed w cs) cs"
  by (induction cs) (simp_all split: option.splits)

lemma performed_complete: "first_error w cs = None \<Longrightarrow> performed w cs = cs"
  by (induction cs) (simp_all split: option.splits)

lemma first_error_performed:
  "first_error w cs = Some e \<Longrightarrow> \<exists>c \<in> set (performed w cs). respond w c = Some e"
  by (induction cs) (auto split: option.splits)

lemma performs_log: "performs w s (log a) []"
  by (simp add: performs_def completion_def log_proj)

lemma performs_await: "performs w s (await_call w c) [c]"
  by (simp add: performs_def completion_def await_proj split: option.splits)

lemma performs_skip: "performs w s skip []"
  by (simp add: performs_def completion_def misc_proj)

lemma performs_seq:
  "performs w s m cs \<Longrightarrow> performs w s n ds \<Longrightarrow> performs w s (seq m n) (cs @ ds)"
  by (auto simp add: performs_def completion_def proj first_error_append performed_append
      split: option.splits sum.splits)

lemma performs_block:
  "list_all2 (performs w s) ms css \<Longrightarrow> performs w s (block ms) (concat css)"
  by (induction ms css rule: list_all2_induct) (simp_all add: performs_skip performs_seq)

lemma performs_when:
  "performs w s m cs \<Longrightarrow> performs w s (when' c m) (if c s then cs else [])"
  by (simp add: when'_def performs_def completion_def misc_proj)

lemma performs_screenshot:
  "performs w s (block [await_call w (Screenshot p), log a]) [Screenshot p]"
  using performs_block [of w s "[await_call w (Screenshot p), log a]" "[[Screenshot p], []]"]
  by (simp add: performs_await performs_log)

lemma performs_login_try:
  "performs w s (login_try w credentials) (login_calls (debug s) credentials)"
proof -
  let ?shot = "\<lambda>p. if debug s then [Screenshot p] else []"
  have "performs w s (login_try w credentials)
          (concat [[], [Goto login_url ''networkidle2'' 60000], [],
                   ?shot ''debug-login-page.png'', [],
                   [Type ''input#tzId'' (id' credentials) 50], [],
                   [Type ''input#tzPassword'' (password credentials) 50], [],
                   [Type ''input#aidnum'' (code credentials) 50], [], [],
                   ?shot ''debug-credentials-entered.png'', [],
                   [Click submit_button], [], [],
                   [WaitForNavigation ''networkidle2''], [],
                   ?shot ''debug-after-login.png''])"
    unfolding login_try_def
    by (rule performs_block)
       (simp add: performs_log performs_await performs_when performs_screenshot del: block.simps)
  then show ?thesis by (simp add: login_calls_def)
qed

lemma performs_error_screenshot:
  "performs w s (error_screenshot w)
     (if debug s \<and> page s \<noteq> None then [Screenshot ''debug-error.png''] else [])"
  unfolding error_screenshot_def by (rule performs_when) (rule performs_screenshot)

subsection \<open>What login does\<close>

lemma login_catch_run:
  "state (login_catch w e s) = s"
  "calls (trace (login_catch w e s)) = (if debug s \<and> page s \<noteq> None then [Screenshot ''debug-error.png''] else [])"
  "result (login_catch w e s) =
     (if debug s \<and> page s \<noteq> None
      then (case respond w (Screenshot ''debug-error.png'') of None \<Rightarrow> Inl e | Some e' \<Rightarrow> Inl e')
      else Inl e)"
  using performs_error_screenshot [of w s]
  by (auto simp add: login_catch_def performs_def completion_def proj split: option.splits sum.splits)

lemma login_run:
  assumes "page s \<noteq> None"
  shows "state (login w credentials s) = s"
    and "calls (trace (login w credentials s)) =
           performed w (login_calls (debug s) credentials)
           @ (case first_error w (login_calls (debug s) credentials) of
                None \<Rightarrow> []
              | Some e \<Rightarrow> if debug s then [Screenshot ''debug-error.png''] else [])"
    and "result (login w credentials s) =
           (case first_error w (login_calls (debug s) credentials) of
              None \<Rightarrow> Inr ()
            | Some e \<Rightarrow>
                if debug s
                then (case respond w (Screenshot ''debug-error.png'') of
                        None \<Rightarrow> Inl e | Some e' \<Rightarrow> Inl e')
                else Inl e)"
  using assms performs_login_try [of w s credentials]
  by (auto simp add: login_def performs_def completion_def try_result try_state try_trace
        login_catch_run split: option.splits sum.splits)

lemma interactions_login_calls:
  "filter (\<lambda>c. \<not> is_screenshot c) (login_calls d credentials) = login_sequence credentials"
  by (simp add: login_calls_def login_sequence_def)

subsection \<open>The concrete environments, evaluated\<close>

lemmas step_defs = seq_def try_catch_def log_def await_call_def sync_call_def assign_def
  when'_def skip_def throw_def emit_def sleep_def deliver_def

lemma fresh_eval:
  "fresh d = \<lparr>browser = None, page = None, debug = d, headless = True\<rparr>"
  by (simp add: fresh_def constructor_def Let_def)

lemma ready_eval:
  "ready d =
     \<lparr>browser = Some (Browser (launchOptions (fresh d))),
      page = Some \<lparr>default_timeout = Some 30000,
                   listeners = (if d then [''console'', ''pageerror'', ''error'', ''request'', ''response'']
                                else [])\<rparr>,
      debug = d, headless = True\<rparr>"
  by (simp add: ready_def fresh_eval initialize_def initialize_try_def enable_logging_def initialize_catch_def
      error_screenshot_def page_on_def set_default_timeout_def add_listener_def new_page_def
      quiet_world_def step_defs)


lemma quiet_world_respond [simp]: "respond quiet_world c = None"
  by (simp add: quiet_world_def)

subsection \<open>What close does\<close>

lemma close_run:
  "state (close w s) = s"
  "browser s = None \<Longrightarrow> close w s = (Inr (), s, [])"
  "browser s \<noteq> None \<Longrightarrow>
     result (close w s) = (case respond w BrowserClose of None \<Rightarrow> Inr () | Some e \<Rightarrow> Inl e)"
  "browser s \<noteq> None \<Longrightarrow> calls (trace (close w s)) = [BrowserClose]"
  by (simp_all add: close_def when'_def skip_def await_proj)

lemma close_repeated_idle:
  "browser s = None \<Longrightarrow> block (replicate n (close w)) s = (Inr (), s, [])"
  by (induction n) (simp_all add: skip_def seq_def close_run)

lemma close_repeated_calls:
  "browser s \<noteq> None \<Longrightarrow> respond w BrowserClose = None \<Longrightarrow>
   result (block (replicate n (close w)) s) = Inr ()
   \<and> state (block (replicate n (close w)) s) = s
   \<and> calls (trace (block (replicate n (close w)) s)) = replicate n BrowserClose"
  by (induction n) (simp_all add: proj close_run)

subsection \<open>What initialize leaves behind\<close>

lemma initialize_catch_throws: "result (initialize_catch w e s) \<noteq> Inr ()"
  by (simp add: initialize_catch_def error_screenshot_def proj split: option.splits sum.splits)

lemma page_on_run:
  "result (page_on w name s) = (case respond w (On name) of None \<Rightarrow> Inr () | Some e \<Rightarrow> Inl e)"
  "state (page_on w name s) = (case respond w (On name) of None \<Rightarrow> add_listener name s | Some e \<Rightarrow> s)"
  "trace (page_on w name s) = [Call (On name)]"
  by (simp_all add: page_on_def proj split: option.splits)

lemma block_invariant:
  "\<forall>m \<in> set ms. \<forall>s. Q s \<longrightarrow> Q (state (m s)) \<Longrightarrow> Q s \<Longrightarrow> Q (state (block ms s))"
  by (induction ms arbitrary: s) (simp_all add: proj split: sum.splits)




lemma initialize_succeeds:
  assumes "respond w (Launch (launchOptions s)) = None" "respond w NewPage = None"
    "respond w (SetDefaultTimeout 30000) = None" "\<And>name. respond w (On name) = None"
  shows "result (initialize w s) = Inr ()"
    and "state (initialize w s) =
           s\<lparr>browser := Some (Browser (launchOptions s)),
             page := Some \<lparr>default_timeout = Some 30000,
                          listeners = (if debug s
                                       then [''console'', ''pageerror'', ''error'', ''request'', ''response'']
                                       else [])\<rparr>\<rparr>"
    and "calls (trace (initialize w s)) =
           [Launch (launchOptions s), NewPage, SetDefaultTimeout 30000]
           @ (if debug s
              then [On ''console'', On ''pageerror'', On ''error'', On ''request'', On ''response'']
              else [])"
  using assms
  by (simp_all add: initialize_def initialize_try_def enable_logging_def proj page_on_run
      set_default_timeout_def add_listener_def new_page_def)

subsection \<open>Which calls a statement can make\<close>

lemma only_log: "only P (log a)"
  and only_skip: "only P skip"
  and only_throw: "only P (throw e)"
  and only_assign: "only P (assign f)"
  and only_sleep: "only P (sleep w ms)"
  by (simp_all add: only_def proj)

lemma only_await: "P c \<Longrightarrow> only P (await_call w c)"
  and only_sync: "P c \<Longrightarrow> only P (sync_call w c)"
  and only_emit: "list_all P (calls evs) \<Longrightarrow> only P (emit evs)"
  by (simp_all add: only_def proj)

lemma only_seq: "only P m \<Longrightarrow> only P n \<Longrightarrow> only P (seq m n)"
  by (simp add: only_def proj split: sum.splits)

lemma only_block: "list_all (only P) ms \<Longrightarrow> only P (block ms)"
  by (induction ms) (simp_all add: only_skip only_seq)

lemma only_when: "only P m \<Longrightarrow> only P (when' c m)"
  by (simp add: only_def when'_def misc_proj)

lemma only_try: "only P m \<Longrightarrow> (\<And>e. only P (h e)) \<Longrightarrow> only P (try_catch m h)"
  by (simp add: only_def proj split: sum.splits)

lemma only_page_on: "P (On name) \<Longrightarrow> only P (page_on w name)"
  unfolding page_on_def by (simp add: only_seq only_sync only_assign)

lemma only_error_screenshot: "P (Screenshot ''debug-error.png'') \<Longrightarrow> only P (error_screenshot w)"
  unfolding error_screenshot_def
  by (rule only_when, rule only_block) (simp add: only_await only_log)

lemma only_initialize:
  assumes "P (Launch (launchOptions s))" "P NewPage" "P (SetDefaultTimeout 30000)"
    "\<And>name. P (On name)" "P (Screenshot ''debug-error.png'')"
  shows "list_all P (calls (trace (initialize w s)))"
proof -
  have "only P (enable_logging w)"
    unfolding enable_logging_def
    by (rule only_when, rule only_block) (simp add: only_page_on assms)
  then have "only P (initialize_try w (launchOptions s))"
    unfolding initialize_try_def
    by - (rule only_block, simp add: only_await only_sync only_assign only_log assms del: block.simps)
  moreover have "only P (initialize_catch w e)" for e
    unfolding initialize_catch_def
    by (rule only_block) (simp add: only_log only_throw only_error_screenshot assms)
  ultimately have "only P (block
       [log [S ''Initializing browser...''],
        log [S ''Launch options:'', S (stringify (launchOptions s))],
        try_catch (initialize_try w (launchOptions s)) (initialize_catch w)])"
    by - (rule only_block, simp add: only_log only_try del: block.simps)
  then show ?thesis
    by (simp add: only_def initialize_def del: block.simps)
qed

lemma only_main_finally: "list_all (\<lambda>c. c = BrowserClose) (calls (trace (main_finally w s)))"
proof -
  have "only (\<lambda>c. c = BrowserClose) (main_finally w)"
    unfolding main_finally_def close_def
    by (rule only_block) (simp add: only_emit only_when only_await)
  then show ?thesis by (simp add: only_def)
qed

subsection \<open>The calls of main\<close>

lemma main_scraper_eval:
  "main_scraper = \<lparr>browser = None, page = None, debug = True, headless = False\<rparr>"
  by (simp add: main_scraper_def constructor_def Let_def)

lemma main_run:
  "fst (main w credentials) =
     (case result (main_try w credentials main_scraper) of
        Inl e \<Rightarrow> Exited 1
      | Inr u \<Rightarrow>
          (case result (main_finally w (state (main_try w credentials main_scraper))) of
             Inl e \<Rightarrow> Rejected e
           | Inr u \<Rightarrow> Returned))"
  "snd (main w credentials) =
     ConsoleLog [S ''[DEBUG]'', S ''Debug mode enabled'']
     # trace (main_try w credentials main_scraper)
     @ (case result (main_try w credentials main_scraper) of
          Inl e \<Rightarrow> [ConsoleError [S ''An error occurred:'', V e], ProcessExit 1]
        | Inr u \<Rightarrow> trace (main_finally w (state (main_try w credentials main_scraper))))"
proof -
  obtain r s t where a: "main_try w credentials main_scraper = (r, s, t)"
    by (cases "main_try w credentials main_scraper")
  obtain r' s' t' where b: "main_finally w s = (r', s', t')"
    by (cases "main_finally w s")
  have c: "constructor \<lparr>opt_debug = Some True, opt_headless = Some False\<rparr>
             = (main_scraper, [ConsoleLog [S ''[DEBUG]'', S ''Debug mode enabled'']])"
    by (simp add: main_scraper_def constructor_def Let_def log_def)
  show "fst (main w credentials) =
     (case result (main_try w credentials main_scraper) of
        Inl e \<Rightarrow> Exited 1
      | Inr u \<Rightarrow>
          (case result (main_finally w (state (main_try w credentials main_scraper))) of
             Inl e \<Rightarrow> Rejected e
           | Inr u \<Rightarrow> Returned))"
    by (simp add: main_def a b c split: sum.splits)
  show "snd (main w credentials) =
     ConsoleLog [S ''[DEBUG]'', S ''Debug mode enabled'']
     # trace (main_try w credentials main_scraper)
     @ (case result (main_try w credentials main_scraper) of
          Inl e \<Rightarrow> [ConsoleError [S ''An error occurred:'', V e], ProcessExit 1]
        | Inr u \<Rightarrow> trace (main_finally w (state (main_try w credentials main_scraper))))"
    by (simp add: main_def a b c split: sum.splits)
qed

lemma main_try_run:
  "result (main_try w credentials s) =
     (case result (initialize w s) of
        Inl e \<Rightarrow> Inl e
      | Inr u \<Rightarrow> result (login w credentials (state (initialize w s))))"
  "calls (trace (main_try w credentials s)) =
     calls (trace (initialize w s))
     @ (case result (initialize w s) of
          Inl e \<Rightarrow> []
        | Inr u \<Rightarrow> calls (trace (login w credentials (state (initialize w s)))))"
  by (simp_all add: main_try_def proj split: sum.splits)

lemma main_calls:
  "calls (snd (main w credentials)) =
     calls (trace (main_try w credentials main_scraper))
     @ (case result (main_try w credentials main_scraper) of
          Inl e \<Rightarrow> []
        | Inr u \<Rightarrow> calls (trace (main_finally w (state (main_try w credentials main_scraper)))))"
  by (simp add: main_run split: sum.splits)

lemma filter_performed_length:
  "length (filter P (performed w cs)) \<le> length (filter P cs)"
  using performed_prefix [of w cs] filter_mono_prefix [of "performed w cs" cs P]
  by (auto dest: prefix_length_le)

lemma login_at_most_once:
  "length (filter is_goto (calls (trace (login w credentials s)))) \<le> 1"
  "length (filter is_click (calls (trace (login w credentials s)))) \<le> 1"
proof -
  have "length (filter is_goto (login_calls d credentials)) = 1"
    and "length (filter is_click (login_calls d credentials)) = 1" for d
    by (simp_all add: login_calls_def)
  then have g: "length (filter is_goto (performed w (login_calls d credentials))) \<le> 1"
    and c: "length (filter is_click (performed w (login_calls d credentials))) \<le> 1" for d
    using filter_performed_length [of is_goto w "login_calls d credentials"]
      filter_performed_length [of is_click w "login_calls d credentials"]
    by simp_all
  show "length (filter is_goto (calls (trace (login w credentials s)))) \<le> 1"
  proof (cases "page s = None")
    case True
    then show ?thesis by (simp add: login_def proj)
  next
    case False
    then show ?thesis using g by (simp add: login_run split: option.splits)
  qed
  show "length (filter is_click (calls (trace (login w credentials s)))) \<le> 1"
  proof (cases "page s = None")
    case True
    then show ?thesis by (simp add: login_def proj)
  next
    case False
    then show ?thesis using c by (simp add: login_run split: option.splits)
  qed
qed

lemma filter_none: "list_all (\<lambda>c. \<not> P c) cs \<Longrightarrow> filter P cs = []"
  by (induction cs) simp_all

lemma main_login_once:
  "length (filter is_goto (calls (snd (main w credentials)))) \<le> 1"
  "length (filter is_click (calls (snd (main w credentials)))) \<le> 1"
proof -
  have i: "filter is_goto (calls (trace (initialize w s))) = []"
    "filter is_click (calls (trace (initialize w s))) = []" for s
    by (rule filter_none, rule only_initialize, simp_all)+
  have "list_all (\<lambda>c. \<not> is_goto c) (calls (trace (main_finally w s)))"
    "list_all (\<lambda>c. \<not> is_click c) (calls (trace (main_finally w s)))" for s
    using only_main_finally [of w s] by (auto simp add: list_all_iff)
  then have f: "filter is_goto (calls (trace (main_finally w s))) = []"
    "filter is_click (calls (trace (main_finally w s))) = []" for s
    by (simp_all add: filter_none)
  show "length (filter is_goto (calls (snd (main w credentials)))) \<le> 1"
    using login_at_most_once(1) [of w credentials "state (initialize w main_scraper)"]
    by (simp add: main_calls main_try_run i f split: sum.splits)
  show "length (filter is_click (calls (snd (main w credentials)))) \<le> 1"
    using login_at_most_once(2) [of w credentials "state (initialize w main_scraper)"]
    by (simp add: main_calls main_try_run i f split: sum.splits)
qed

subsection \<open>Runs that correspond\<close>


lemma essential_append: "essential (t @ u) = essential t @ essential u"
  by (simp add: essential_def)

lemma compositional_essential: "compositional essential"
  by (simp add: compositional_def essential_append)

lemma compositionalD:
  "compositional E \<Longrightarrow> E t = E t' \<Longrightarrow> E u = E u' \<Longrightarrow> E (t @ u) = E (t' @ u')"
  unfolding compositional_def by blast


lemma related_skip: "E [] = E [] \<Longrightarrow> related R E skip skip"
  by (simp add: related_def misc_proj)

lemma related_seq:
  assumes "compositional E" "related R E m n" "related R E m' n'"
  shows "related R E (seq m m') (seq n n')"
  unfolding related_def
proof (intro allI impI)
  fix s t assume "R s t"
  with assms(2) have a: "result (m s) = result (n t)" "R (state (m s)) (state (n t))"
    "E (trace (m s)) = E (trace (n t))"
    by (simp_all add: related_def)
  show "result (seq m m' s) = result (seq n n' t) \<and>
        R (state (seq m m' s)) (state (seq n n' t)) \<and>
        E (trace (seq m m' s)) = E (trace (seq n n' t))"
  proof (cases "result (n t)")
    case (Inl e)
    with a show ?thesis by (simp add: proj)
  next
    case (Inr u)
    from assms(3) a(2) have b: "result (m' (state (m s))) = result (n' (state (n t)))"
      "R (state (m' (state (m s)))) (state (n' (state (n t))))"
      "E (trace (m' (state (m s)))) = E (trace (n' (state (n t))))"
      by (simp_all add: related_def)
    from assms(1) a(3) b(3)
    have "E (trace (m s) @ trace (m' (state (m s)))) = E (trace (n t) @ trace (n' (state (n t))))"
      by (rule compositionalD)
    with Inr a b show ?thesis by (simp add: proj)
  qed
qed

lemma related_block':
  "list_all2 (related R E) ms ns \<Longrightarrow> compositional E \<Longrightarrow> related R E (block ms) (block ns)"
  by (induction ms ns rule: list_all2_induct) (simp_all add: related_skip related_seq)

lemma related_block:
  "compositional E \<Longrightarrow> list_all2 (related R E) ms ns \<Longrightarrow> related R E (block ms) (block ns)"
  by (rule related_block')

lemma related_try:
  assumes "compositional E" "related R E m n" "\<And>e. related R E (h e) (k e)"
  shows "related R E (try_catch m h) (try_catch n k)"
  unfolding related_def
proof (intro allI impI)
  fix s t assume "R s t"
  with assms(2) have a: "result (m s) = result (n t)" "R (state (m s)) (state (n t))"
    "E (trace (m s)) = E (trace (n t))"
    by (simp_all add: related_def)
  show "result (try_catch m h s) = result (try_catch n k t) \<and>
        R (state (try_catch m h s)) (state (try_catch n k t)) \<and>
        E (trace (try_catch m h s)) = E (trace (try_catch n k t))"
  proof (cases "result (n t)")
    case (Inr u)
    with a show ?thesis by (simp add: proj)
  next
    case (Inl e)
    from assms(3) [of e] a(2) have b: "result (h e (state (m s))) = result (k e (state (n t)))"
      "R (state (h e (state (m s)))) (state (k e (state (n t))))"
      "E (trace (h e (state (m s)))) = E (trace (k e (state (n t))))"
      by (simp_all add: related_def)
    from assms(1) a(3) b(3)
    have "E (trace (m s) @ trace (h e (state (m s)))) = E (trace (n t) @ trace (k e (state (n t))))"
      by (rule compositionalD)
    with Inl a b show ?thesis by (simp add: proj)
  qed
qed

lemma related_if:
  assumes "\<And>s t. R s t \<Longrightarrow> c s = c' t" "related R E m n" "related R E m' n'"
  shows "related R E (\<lambda>s. if c s then m s else m' s) (\<lambda>t. if c' t then n t else n' t)"
  using assms by (simp add: related_def)

subsection \<open>Two runs with different credentials\<close>





subsection \<open>A run in debug mode beside one without\<close>

lemma essential_deliver [simp]: "essential (deliver s evs) = []"
  by (simp add: essential_def)

lemma dp_log: "related debug_pair essential (log a) (log b)"
  by (simp add: related_def essential_def log_proj)

lemma dp_throw: "related debug_pair essential (throw e) (throw e)"
  by (simp add: related_def misc_proj)

lemma dp_await:
  "respond w c = respond w c' \<Longrightarrow> essential [Call c] = essential [Call c'] \<Longrightarrow>
   related debug_pair essential (await_call w c) (await_call w c')"
  by (simp add: related_def await_call_def essential_def)

lemma dp_sync: "related debug_pair essential (sync_call w c) (sync_call w c)"
  by (simp add: related_def sync_call_def)

lemma dp_assign:
  "(\<And>s t. debug_pair s t \<Longrightarrow> debug_pair (f s) (g t)) \<Longrightarrow>
   related debug_pair essential (assign f) (assign g)"
  by (simp add: related_def misc_proj)

lemma dp_screenshot:
  assumes "\<And>path. respond w (Screenshot path) = None"
  shows "related debug_pair essential
           (when' debug (block [await_call w (Screenshot p), log a]))
           (when' debug (block [await_call w (Screenshot p), log a]))"
  using performs_screenshot [of w _ p a] assms
  by (simp add: related_def when'_def debug_pair_def misc_proj performs_def completion_def
      essential_def del: block.simps)

lemma dp_error_screenshot:
  assumes "\<And>path. respond w (Screenshot path) = None"
  shows "related debug_pair essential (error_screenshot w) (error_screenshot w)"
  using performs_screenshot [of w _ "''debug-error.png''" "[S ''Error screenshot saved as debug-error.png'']"]
    assms
  by (simp add: related_def error_screenshot_def when'_def debug_pair_def misc_proj performs_def
      completion_def essential_def del: block.simps)

lemma dp_enable_logging:
  assumes "\<And>name. respond w (On name) = None"
  shows "related debug_pair essential (enable_logging w) (enable_logging w)"
  by (simp add: related_def enable_logging_def when'_def debug_pair_def misc_proj proj
      page_on_run assms add_listener_def essential_def)

lemma dp_login_try:
  assumes "\<And>path. respond w (Screenshot path) = None"
  shows "related debug_pair essential (login_try w c) (login_try w c)"
  unfolding login_try_def
  by (rule related_block [OF compositional_essential])
     (simp add: dp_log dp_await dp_screenshot [OF assms] del: block.simps)

lemma dp_login_catch:
  assumes "\<And>path. respond w (Screenshot path) = None"
  shows "related debug_pair essential (login_catch w e) (login_catch w e)"
  unfolding login_catch_def
  by (rule related_block [OF compositional_essential])
     (simp add: dp_log dp_throw dp_error_screenshot [OF assms])

lemma dp_login:
  assumes "\<And>path. respond w (Screenshot path) = None"
  shows "related debug_pair essential (login w c) (login w c)"
proof -
  have "related debug_pair essential
          (block [log [S not_initialized], throw (JsError ''Error'' not_initialized)])
          (block [log [S not_initialized], throw (JsError ''Error'' not_initialized)])"
    by (rule related_block [OF compositional_essential]) (simp add: dp_log dp_throw)
  moreover have "related debug_pair essential
          (try_catch (login_try w c) (login_catch w)) (try_catch (login_try w c) (login_catch w))"
    by (rule related_try [OF compositional_essential dp_login_try [OF assms] dp_login_catch [OF assms]])
  ultimately have "related debug_pair essential
          (\<lambda>s. if page s = None
               then block [log [S not_initialized], throw (JsError ''Error'' not_initialized)] s
               else try_catch (login_try w c) (login_catch w) s)
          (\<lambda>s. if page s = None
               then block [log [S not_initialized], throw (JsError ''Error'' not_initialized)] s
               else try_catch (login_try w c) (login_catch w) s)"
    by (intro related_if) (simp_all add: debug_pair_def)
  then show ?thesis
    by (simp add: related_def login_def)
qed

lemma dp_assigns:
  "related debug_pair essential
     (assign (\<lambda>this. this\<lparr>browser := Some (Browser lo)\<rparr>))
     (assign (\<lambda>this. this\<lparr>browser := Some (Browser lo')\<rparr>))"
  "related debug_pair essential
     (assign (\<lambda>this. this\<lparr>page := Some new_page\<rparr>))
     (assign (\<lambda>this. this\<lparr>page := Some new_page\<rparr>))"
  "related debug_pair essential
     (assign (set_default_timeout 30000)) (assign (set_default_timeout 30000))"
  by (rule dp_assign, simp add: debug_pair_def set_default_timeout_def)+

lemma dp_initialize_try:
  assumes "respond w (Launch lo) = respond w (Launch lo')"
    and "\<And>name. respond w (On name) = None"
  shows "related debug_pair essential (initialize_try w lo) (initialize_try w lo')"
  unfolding initialize_try_def
  by (rule related_block [OF compositional_essential])
     (simp add: dp_log dp_await dp_sync dp_assigns dp_enable_logging assms essential_def
        del: block.simps)

lemma dp_initialize_catch:
  assumes "\<And>path. respond w (Screenshot path) = None"
  shows "related debug_pair essential (initialize_catch w e) (initialize_catch w e)"
  unfolding initialize_catch_def
  by (rule related_block [OF compositional_essential])
     (simp add: dp_log dp_throw dp_error_screenshot [OF assms])

lemma dp_initialize:
  assumes "debug_pair s t"
    and "respond w (Launch (launchOptions s)) = respond w (Launch (launchOptions t))"
    and "\<And>path. respond w (Screenshot path) = None"
    and "\<And>name. respond w (On name) = None"
  shows "result (initialize w s) = result (initialize w t)"
    and "debug_pair (state (initialize w s)) (state (initialize w t))"
    and "essential (trace (initialize w s)) = essential (trace (initialize w t))"
proof -
  have "related debug_pair essential
     (block [log [S ''Initializing browser...''],
             log [S ''Launch options:'', S (stringify (launchOptions s))],
             try_catch (initialize_try w (launchOptions s)) (initialize_catch w)])
     (block [log [S ''Initializing browser...''],
             log [S ''Launch options:'', S (stringify (launchOptions t))],
             try_catch (initialize_try w (launchOptions t)) (initialize_catch w)])"
    by (rule related_block [OF compositional_essential])
       (simp add: dp_log related_try [OF compositional_essential]
          dp_initialize_try [OF assms(2) assms(4)] dp_initialize_catch [OF assms(3)]
          del: block.simps)
  with assms(1)
  show "result (initialize w s) = result (initialize w t)"
    and "debug_pair (state (initialize w s)) (state (initialize w t))"
    and "essential (trace (initialize w s)) = essential (trace (initialize w t))"
    by (simp_all add: related_def initialize_def del: block.simps)
qed

subsection \<open>The extraction pipeline\<close>

lemma runAll_other:
  "k \<notin> set (map step_name steps) \<Longrightarrow> foldl (record_step session) m steps k = m k"
  by (induction steps arbitrary: m) (simp_all add: record_step_def)

lemma runAll_entry:
  "distinct (map step_name steps) \<Longrightarrow> st \<in> set steps \<Longrightarrow>
   foldl (record_step session) m steps (step_name st) = Some (run_step st session)"
proof (induction steps arbitrary: m)
  case Nil
  then show ?case by simp
next
  case (Cons a steps)
  show ?case
  proof (cases "st \<in> set steps")
    case True
    with Cons show ?thesis by simp
  next
    case False
    with Cons.prems have "st = a" and "step_name a \<notin> set (map step_name steps)"
      by simp_all
    then show ?thesis
      by (simp add: runAll_other) (simp add: record_step_def)
  qed
qed

lemma runAll_dom:
  "dom (foldl (record_step session) m steps) = dom m \<union> set (map step_name steps)"
  by (induction steps arbitrary: m) (auto simp add: record_step_def)

subsection \<open>The trace of a login in which every call completes\<close>




subsection \<open>When main closes the browser\<close>

lemma page_on_browser: "browser (state (page_on w name s)) = browser s"
  by (simp add: page_on_run add_listener_def split: option.splits)

lemma enable_logging_browser:
  "browser s \<noteq> None \<Longrightarrow> browser (state (enable_logging w s)) \<noteq> None"
  unfolding enable_logging_def when'_def
  using block_invariant [where Q = "\<lambda>s. browser s \<noteq> None" and s = s]
  by (simp add: misc_proj page_on_browser del: block.simps)

lemma initialize_success_browser:
  assumes "result (initialize w s) = Inr ()"
  shows "browser (state (initialize w s)) \<noteq> None"
  using assms
  by (auto simp add: initialize_def initialize_try_def initialize_catch_throws proj
      set_default_timeout_def new_page_def split: option.splits sum.splits
      intro!: enable_logging_browser [simplified])

lemma login_state: "state (login w credentials s) = s"
proof (cases "page s = None")
  case True
  then show ?thesis by (simp add: login_def proj)
next
  case False
  then show ?thesis by (simp add: login_run)
qed

lemma main_try_state:
  "result (main_try w credentials s) = Inr () \<Longrightarrow>
   state (main_try w credentials s) = state (initialize w s)"
  by (simp add: main_try_def proj login_state split: sum.splits)

lemma main_try_never_closes: "BrowserClose \<notin> set (calls (trace (main_try w credentials s)))"
proof -
  have "list_all (\<lambda>c. c \<noteq> BrowserClose) (calls (trace (initialize w s)))"
    by (rule only_initialize) simp_all
  moreover have "BrowserClose \<notin> set (calls (trace (login w credentials s')))" for s'
  proof (cases "page s' = None")
    case True
    then show ?thesis by (simp add: login_def proj)
  next
    case False
    have "set (performed w (login_calls (debug s') credentials))
            \<subseteq> set (login_calls (debug s') credentials)"
      by (rule set_mono_prefix) (rule performed_prefix)
    moreover have "BrowserClose \<notin> set (login_calls (debug s') credentials)"
      by (simp add: login_calls_def)
    ultimately show ?thesis
      using False by (auto simp add: login_run split: option.splits if_splits)
  qed
  ultimately show ?thesis
    by (auto simp add: main_try_run list_all_iff split: sum.splits)
qed

lemma main_closes_iff_completed:
  "BrowserClose \<in> set (calls (snd (main w credentials)))
     \<longleftrightarrow> result (main_try w credentials main_scraper) = Inr ()"
proof (cases "result (main_try w credentials main_scraper)")
  case (Inl e)
  then show ?thesis
    by (simp add: main_calls main_try_never_closes)
next
  case (Inr u)
  then have ok: "result (main_try w credentials main_scraper) = Inr ()"
    by simp
  then have "result (initialize w main_scraper) = Inr ()"
    by (simp add: main_try_run split: sum.splits)
  then have "browser (state (initialize w main_scraper)) \<noteq> None"
    by (rule initialize_success_browser)
  then have "browser (state (main_try w credentials main_scraper)) \<noteq> None"
    by (simp add: main_try_state [OF ok])
  then have "calls (trace (main_finally w (state (main_try w credentials main_scraper))))
               = [BrowserClose]"
    by (simp add: main_finally_def proj close_run split: option.splits sum.splits)
  with ok show ?thesis
    by (simp add: main_calls)
qed

section \<open>The claims\<close>

text \<open>
  C1. The claim asks that \<open>close()\<close> runs on every exit path of a scrape attempt. \<open>main\<close>
  puts the call in a \<open>finally\<close> block, but its \<open>catch\<close> block ends the process with
  \<open>process.exit(1)\<close>, so on a failure the \<open>finally\<close> block never runs
  (\<open>main_closes_iff_completed\<close>: \<open>browser.close()\<close> is called exactly when the try block
  completes). Here the site does not answer: the browser is launched, the page is
  created, \<open>page.goto\<close> times out, the process exits with status 1, and
  \<open>browser.close()\<close> is never called.
\<close>

theorem main_exits_without_close:
  "fst (main unreachable_site sample_credentials) = Exited 1
   \<and> calls (snd (main unreachable_site sample_credentials)) =
       [Launch (launchOptions main_scraper), NewPage, SetDefaultTimeout 30000,
        On ''console'', On ''pageerror'', On ''error'', On ''request'', On ''response'',
        Goto login_url ''networkidle2'' 60000, Screenshot ''debug-error.png'']
   \<and> BrowserClose \<notin> set (calls (snd (main unreachable_site sample_credentials)))
   \<and> last (snd (main unreachable_site sample_credentials)) = ProcessExit 1"
proof -
  let ?w = unreachable_site
  let ?s = "state (initialize ?w main_scraper)"
  have r: "respond ?w c = (if is_goto c then Some navigation_timeout else None)" for c
    by (simp add: unreachable_site_def quiet_world_def)
  have d: "debug main_scraper"
    by (simp add: main_scraper_eval)
  have i: "result (initialize ?w main_scraper) = Inr ()"
    and ic: "calls (trace (initialize ?w main_scraper)) =
               [Launch (launchOptions main_scraper), NewPage, SetDefaultTimeout 30000,
                On ''console'', On ''pageerror'', On ''error'', On ''request'', On ''response'']"
    and p: "page ?s \<noteq> None" and ds: "debug ?s"
    by (simp_all add: initialize_succeeds r d)
  have l: "result (login ?w sample_credentials ?s) = Inl navigation_timeout"
    and lc: "calls (trace (login ?w sample_credentials ?s)) =
               [Goto login_url ''networkidle2'' 60000, Screenshot ''debug-error.png'']"
    by (simp_all add: login_run [OF p] ds login_calls_def r)
  have t: "result (main_try ?w sample_credentials main_scraper) = Inl navigation_timeout"
    and tc: "calls (trace (main_try ?w sample_credentials main_scraper)) =
               [Launch (launchOptions main_scraper), NewPage, SetDefaultTimeout 30000,
                On ''console'', On ''pageerror'', On ''error'', On ''request'', On ''response'',
                Goto login_url ''networkidle2'' 60000, Screenshot ''debug-error.png'']"
    by (simp_all add: main_try_run i ic l lc)
  show ?thesis
    by (simp add: main_run main_calls t tc)
qed

text \<open>
  C2, as the claim states it, fails: \<open>close()\<close> awaits \<open>browser.close()\<close> whenever a
  browser handle is held and never clears the handle, so a call rejects when
  \<open>browser.close()\<close> does, and a second call closes the browser a second time.
\<close>

theorem close_counterexample:
  "result (close lost_browser (ready False)) = Inl connection_closed
   \<and> calls (trace (close quiet_world (ready False))) = [BrowserClose]
   \<and> calls (trace (block [close quiet_world, close quiet_world] (ready False)))
       = [BrowserClose, BrowserClose]"
  by (simp add: close_run proj ready_eval lost_browser_def)

text \<open>
  C2, amended. \<open>close()\<close> never changes the object. While no browser handle is held
  (before \<open>initialize\<close>, or after an \<open>initialize\<close> whose launch failed) any number of calls
  complete without error and do nothing. Once a handle is held, every call invokes
  \<open>browser.close()\<close> once more, and completes without error exactly when that does.
\<close>

theorem close_behaviour:
  "state (close w this) = this
   \<and> (browser this = None \<longrightarrow> block (replicate n (close w)) this = (Inr (), this, []))
   \<and> (browser this = None \<and> respond w (Launch (launchOptions this)) \<noteq> None \<longrightarrow>
        browser (state (initialize w this)) = None)
   \<and> (browser this \<noteq> None \<longrightarrow>
        result (close w this) = (case respond w BrowserClose of None \<Rightarrow> Inr () | Some e \<Rightarrow> Inl e)
        \<and> calls (trace (close w this)) = [BrowserClose])
   \<and> (browser this \<noteq> None \<and> respond w BrowserClose = None \<longrightarrow>
        result (block (replicate n (close w)) this) = Inr ()
        \<and> calls (trace (block (replicate n (close w)) this)) = replicate n BrowserClose)"
proof -
  have "browser (state (initialize w this)) = None"
    if none: "browser this = None" and fails: "respond w (Launch (launchOptions this)) \<noteq> None"
  proof -
    from fails obtain e where e: "respond w (Launch (launchOptions this)) = Some e"
      by blast
    have "state (initialize_try w (launchOptions this) this) = this"
      and "result (initialize_try w (launchOptions this) this) = Inl e"
      by (simp_all add: initialize_try_def proj e)
    moreover have "browser (state (initialize_catch w e this)) = browser this"
      using performs_error_screenshot [of w this]
      by (simp add: initialize_catch_def proj performs_def split: sum.splits)
    ultimately show ?thesis
      using none by (simp add: initialize_def proj split: sum.splits)
  qed
  then show ?thesis
    by (simp add: close_run close_repeated_idle close_repeated_calls)
qed

theorem close_behaviour_witness:
  "browser (fresh False) = None
   \<and> block (replicate 3 (close quiet_world)) (fresh False) = (Inr (), fresh False, [])
   \<and> respond no_chrome (Launch (launchOptions (fresh False))) \<noteq> None
   \<and> browser (state (initialize no_chrome (fresh False))) = None
   \<and> browser (ready False) \<noteq> None
   \<and> respond quiet_world BrowserClose = None
   \<and> state (close quiet_world (ready False)) = ready False
   \<and> result (close quiet_world (ready False)) = Inr ()
   \<and> calls (trace (close quiet_world (ready False))) = [BrowserClose]
   \<and> result (block (replicate 2 (close quiet_world)) (ready False)) = Inr ()
   \<and> calls (trace (block (replicate 2 (close quiet_world)) (ready False)))
       = [BrowserClose, BrowserClose]"
proof -
  have a: "browser (fresh False) = None"
    and b: "respond no_chrome (Launch (launchOptions (fresh False))) \<noteq> None"
    and c: "browser (ready False) \<noteq> None"
    and d: "respond quiet_world BrowserClose = None"
    by (simp_all add: fresh_eval ready_eval no_chrome_def)
  have e: "replicate 2 BrowserClose = [BrowserClose, BrowserClose]"
    by (simp add: numeral_2_eq_2)
  from close_behaviour [of quiet_world "fresh False" 3]
    close_behaviour [of no_chrome "fresh False" 0]
    close_behaviour [of quiet_world "ready False" 2] a b c d e
  show ?thesis by simp
qed

text \<open>
  C3. When any of the three credential variables is unset or empty, running the file
  prints the validation error (the heading, one line per missing variable, the hint) on
  \<open>console.error\<close> and exits with status 1 before anything else runs: no library call is
  made, so no browser is launched, whatever the world would have answered.
\<close>

theorem missing_credentials_short_circuit:
  assumes "falsy (env ''CREDENTIALS_ID'') \<or> falsy (env ''CREDENTIALS_PASSWORD'')
           \<or> falsy (env ''CREDENTIALS_CODE'')"
  shows "fst (program env w) = Exited 1
       \<and> calls (snd (program env w)) = []
       \<and> missingVars env \<noteq> []
       \<and> snd (program env w) =
           ConsoleError [S ''Error: Missing required environment variables:'']
           # map (\<lambda>varName. ConsoleError [S (''- '' @ varName)]) (missingVars env)
           @ [ConsoleError [S ''\<newline>Please copy .env.example to .env and fill in your credentials''],
              ProcessExit 1]"
proof -
  from assms have m: "missingVars env \<noteq> []"
    by (auto simp add: missingVars_def requiredEnvVars_def)
  have "calls (map (\<lambda>varName. ConsoleError [S (''- '' @ varName)]) xs) = []" for xs
    by (induction xs) simp_all
  with m show ?thesis
    by (simp add: program_def)
qed

theorem missing_credentials_short_circuit_witness:
  "falsy (partial_env ''CREDENTIALS_PASSWORD'')
   \<and> fst (program partial_env quiet_world) = Exited 1
   \<and> calls (snd (program partial_env quiet_world)) = []
   \<and> snd (program partial_env quiet_world) =
       [ConsoleError [S ''Error: Missing required environment variables:''],
        ConsoleError [S ''- CREDENTIALS_PASSWORD''],
        ConsoleError [S ''- CREDENTIALS_CODE''],
        ConsoleError [S ''\<newline>Please copy .env.example to .env and fill in your credentials''],
        ProcessExit 1]"
proof -
  have f: "falsy (partial_env ''CREDENTIALS_PASSWORD'')"
    by (simp add: falsy_def partial_env_def)
  have "missingVars partial_env = [''CREDENTIALS_PASSWORD'', ''CREDENTIALS_CODE'']"
    by (simp add: missingVars_def requiredEnvVars_def falsy_def partial_env_def)
  with missing_credentials_short_circuit [of partial_env quiet_world] f
  show ?thesis by simp
qed

text \<open>
  C4. With a page at hand, \<open>login\<close> drives the browser through one fixed sequence:
  it navigates to the login URL, types the identifier, the password and the security
  code in that order, each with a delay of 50 ms per keystroke, clicks the submit button
  and waits for the navigation. Screenshots apart (debug mode takes them between the
  steps), the calls it makes are always an initial part of that sequence, never
  reordered; they are the whole sequence whenever \<open>login\<close> completes; and without debug
  mode no other call is made at all.
\<close>

theorem login_performs_sequence:
  assumes "page this \<noteq> None"
  shows "prefix (interactions (trace (login w credentials this))) (login_sequence credentials)
       \<and> (result (login w credentials this) = Inr () \<longrightarrow>
            interactions (trace (login w credentials this)) = login_sequence credentials)
       \<and> (\<not> debug this \<longrightarrow>
            calls (trace (login w credentials this)) = interactions (trace (login w credentials this)))"
proof -
  let ?cs = "login_calls (debug this) credentials"
  have shape: "interactions (trace (login w credentials this))
                 = filter (\<lambda>c. \<not> is_screenshot c) (performed w ?cs)"
    by (simp add: interactions_def login_run [OF assms] split: option.splits)
  have "prefix (filter (\<lambda>c. \<not> is_screenshot c) (performed w ?cs))
               (filter (\<lambda>c. \<not> is_screenshot c) ?cs)"
    by (rule filter_mono_prefix) (rule performed_prefix)
  then have 1: "prefix (interactions (trace (login w credentials this))) (login_sequence credentials)"
    by (simp add: shape interactions_login_calls)
  have 2: "interactions (trace (login w credentials this)) = login_sequence credentials"
    if "result (login w credentials this) = Inr ()"
  proof -
    from that have "first_error w ?cs = None"
      by (simp add: login_run [OF assms] split: option.splits if_splits)
    then show ?thesis
      by (simp add: shape performed_complete interactions_login_calls)
  qed
  have 3: "calls (trace (login w credentials this)) = interactions (trace (login w credentials this))"
    if "\<not> debug this"
  proof -
    have "list_all (\<lambda>c. \<not> is_screenshot c) (performed w ?cs)"
      using that performed_prefix [of w ?cs]
      by (auto simp add: list_all_iff login_calls_def dest!: set_mono_prefix)
    then have "filter (\<lambda>c. \<not> is_screenshot c) (performed w ?cs) = performed w ?cs"
      by (simp add: list_all_iff)
    with that show ?thesis
      by (simp add: shape) (simp add: login_run [OF assms] split: option.splits)
  qed
  from 1 2 3 show ?thesis by blast
qed

theorem login_performs_sequence_witness:
  "page (ready False) \<noteq> None
   \<and> result (login quiet_world sample_credentials (ready False)) = Inr ()
   \<and> \<not> debug (ready False)
   \<and> prefix (interactions (trace (login quiet_world sample_credentials (ready False))))
         (login_sequence sample_credentials)
   \<and> interactions (trace (login quiet_world sample_credentials (ready False)))
       = login_sequence sample_credentials
   \<and> calls (trace (login quiet_world sample_credentials (ready False)))
       = interactions (trace (login quiet_world sample_credentials (ready False)))"
proof -
  have p: "page (ready False) \<noteq> None" and d: "\<not> debug (ready False)"
    by (simp_all add: ready_eval)
  have r: "result (login quiet_world sample_credentials (ready False)) = Inr ()"
    by (simp add: login_run [OF p] login_calls_def d)
  from login_performs_sequence [OF p, of quiet_world sample_credentials] p d r
  show ?thesis by simp
qed



text \<open>
  C6, as the claim states it, fails: \<open>login\<close> has no kinds of authentication failure.
  Its catch block logs the error and throws it again as it is, so a navigation that timed
  out surfaces as puppeteer's \<open>TimeoutError\<close> and a missing form field as a plain
  \<open>Error\<close>; neither is one of the three kinds the specification names.
\<close>

theorem login_failure_counterexample:
  "result (login unreachable_site sample_credentials (ready False))
     = Inl (JsError ''TimeoutError'' ''Navigation timeout of 60000 ms exceeded'')
   \<and> ''TimeoutError'' \<notin> set spec_authentication_kinds
   \<and> result (login changed_form sample_credentials (ready False))
     = Inl (JsError ''Error'' ''No element found for selector: input#tzId'')
   \<and> ''Error'' \<notin> set spec_authentication_kinds"
proof -
  have p: "page (ready False) \<noteq> None" and d: "\<not> debug (ready False)"
    by (simp_all add: ready_eval)
  show ?thesis
    by (simp add: login_run [OF p] d login_calls_def unreachable_site_def changed_form_def
        quiet_world_def navigation_timeout_def no_element_def spec_authentication_kinds_def)
qed

text \<open>
  C6, amended. \<open>login\<close> does not classify its failures: a failing \<open>login\<close> throws the very
  value that one of the library calls it made has thrown (the first call that failed or,
  in debug mode, the error screenshot when that fails too). Nothing is ever retried,
  whatever the failure: one run of \<open>main\<close> navigates to the login page at most once and
  submits the form at most once.
\<close>

theorem login_rethrows_and_runs_once:
  "(page this \<noteq> None \<and> result (login w credentials this) = Inl e \<longrightarrow>
      (\<exists>c \<in> set (calls (trace (login w credentials this))). respond w c = Some e))
   \<and> length (filter is_goto (calls (snd (main w credentials)))) \<le> 1
   \<and> length (filter is_click (calls (snd (main w credentials)))) \<le> 1"
proof -
  have "\<exists>c \<in> set (calls (trace (login w credentials this))). respond w c = Some e"
    if page: "page this \<noteq> None" and fails: "result (login w credentials this) = Inl e"
  proof -
    let ?cs = "login_calls (debug this) credentials"
    from fails obtain e0 where e0: "first_error w ?cs = Some e0"
      by (auto simp add: login_run [OF page] split: option.splits)
    from first_error_performed [OF e0] obtain c0
      where c0: "c0 \<in> set (performed w ?cs)" "respond w c0 = Some e0"
      by blast
    show ?thesis
    proof (cases "e = e0")
      case True
      with c0 show ?thesis
        by (auto simp add: login_run [OF page] e0)
    next
      case False
      with fails e0 have "debug this" "respond w (Screenshot ''debug-error.png'') = Some e"
        by (auto simp add: login_run [OF page] split: option.splits if_splits)
      with e0 show ?thesis
        by (auto simp add: login_run [OF page])
    qed
  qed
  with main_login_once [of w credentials] show ?thesis
    by blast
qed

theorem login_rethrows_and_runs_once_witness:
  "page (ready False) \<noteq> None
   \<and> result (login unreachable_site sample_credentials (ready False)) = Inl navigation_timeout
   \<and> (\<exists>c \<in> set (calls (trace (login unreachable_site sample_credentials (ready False)))).
          respond unreachable_site c = Some navigation_timeout)
   \<and> length (filter is_goto (calls (snd (main unreachable_site sample_credentials)))) \<le> 1
   \<and> length (filter is_click (calls (snd (main unreachable_site sample_credentials)))) \<le> 1"
proof -
  have p: "page (ready False) \<noteq> None" and d: "\<not> debug (ready False)"
    by (simp_all add: ready_eval)
  have r: "result (login unreachable_site sample_credentials (ready False)) = Inl navigation_timeout"
    by (simp add: login_run [OF p] d login_calls_def unreachable_site_def quiet_world_def)
  from login_rethrows_and_runs_once
    [of "ready False" unreachable_site sample_credentials navigation_timeout] p r
  show ?thesis by simp
qed

text \<open>
  C7. In the pipeline as the specification describes it, a step that fails leaves its
  error marker under its own view name and nothing else: every other step still runs,
  its entry is what that step yields on its own, the same as in a run without the failing
  step, and every view has an entry in the result.
\<close>

theorem failing_step_is_isolated:
  assumes "distinct (map step_name (before @ failing # after))"
    and "run_step failing session = Inl error"
    and "st \<in> set (before @ after)"
  shows "runAll (before @ failing # after) session (step_name failing) = Some (Inl error)
       \<and> runAll (before @ failing # after) session (step_name st) = Some (run_step st session)
       \<and> runAll (before @ failing # after) session (step_name st)
           = runAll (before @ after) session (step_name st)
       \<and> dom (runAll (before @ failing # after) session)
           = set (map step_name (before @ failing # after))"
proof -
  from assms(1) have d: "distinct (map step_name (before @ after))"
    by auto
  from assms(3) have m: "st \<in> set (before @ failing # after)"
    by auto
  have f: "failing \<in> set (before @ failing # after)"
    by simp
  have 1: "runAll (before @ failing # after) session (step_name failing) = Some (Inl error)"
    unfolding runAll_def using runAll_entry [OF assms(1) f, of session Map.empty] assms(2)
    by simp
  have 2: "runAll (before @ failing # after) session (step_name st) = Some (run_step st session)"
    unfolding runAll_def using assms(1) m by (rule runAll_entry)
  have 3: "runAll (before @ after) session (step_name st) = Some (run_step st session)"
    unfolding runAll_def using d assms(3) by (rule runAll_entry)
  have 4: "dom (runAll (before @ failing # after) session) = set (map step_name (before @ failing # after))"
    unfolding runAll_def by (simp only: runAll_dom) simp
  from 1 2 3 4 show ?thesis by simp
qed

theorem failing_step_is_isolated_witness:
  "distinct (map step_name ([view ''userAccounts''] @ absent_view ''loansData'' # [view ''dashboardBalances'']))
   \<and> run_step (absent_view ''loansData'') ''session'' = Inl ElementNotFound
   \<and> view ''dashboardBalances'' \<in> set ([view ''userAccounts''] @ [view ''dashboardBalances''])
   \<and> runAll ([view ''userAccounts''] @ absent_view ''loansData'' # [view ''dashboardBalances''])
         ''session'' ''loansData'' = Some (Inl ElementNotFound)
   \<and> runAll ([view ''userAccounts''] @ absent_view ''loansData'' # [view ''dashboardBalances''])
         ''session'' ''dashboardBalances'' = Some (Inr 24)
   \<and> runAll ([view ''userAccounts''] @ [view ''dashboardBalances''])
         ''session'' ''dashboardBalances'' = Some (Inr 24)"
proof -
  let ?all = "[view ''userAccounts''] @ absent_view ''loansData'' # [view ''dashboardBalances'']"
  let ?rest = "[view ''userAccounts''] @ [view ''dashboardBalances'']"
  have a: "distinct (map step_name ?all)"
    by (simp add: view_def absent_view_def)
  have b: "run_step (absent_view ''loansData'') ''session'' = Inl ElementNotFound"
    by (simp add: run_step_def absent_view_def)
  have c: "view ''dashboardBalances'' \<in> set ?rest"
    by simp
  have n1: "step_name (absent_view ''loansData'') = ''loansData''"
    and n2: "step_name (view ''dashboardBalances'') = ''dashboardBalances''"
    and n3: "run_step (view ''dashboardBalances'') ''session'' = Inr 24"
    by (simp_all add: view_def absent_view_def run_step_def)
  note t = failing_step_is_isolated [OF a b c]
  from t have t1: "runAll ?all ''session'' (step_name (absent_view ''loansData'')) = Some (Inl ElementNotFound)"
    by (rule conjunct1)
  from t have t2: "runAll ?all ''session'' (step_name (view ''dashboardBalances''))
                     = Some (run_step (view ''dashboardBalances'') ''session'')"
    by (rule conjunct2 [THEN conjunct1])
  from t have t3: "runAll ?all ''session'' (step_name (view ''dashboardBalances''))
                     = runAll ?rest ''session'' (step_name (view ''dashboardBalances''))"
    by (rule conjunct2 [THEN conjunct2, THEN conjunct1])
  from t3 t2 have t4: "runAll ?rest ''session'' (step_name (view ''dashboardBalances''))
                         = Some (run_step (view ''dashboardBalances'') ''session'')"
    by (rule trans [OF sym])
  from t1 have u1: "runAll ?all ''session'' ''loansData'' = Some (Inl ElementNotFound)"
    by (simp only: n1)
  from t2 have u2: "runAll ?all ''session'' ''dashboardBalances'' = Some (Inr 24)"
    by (simp only: n2 n3)
  from t4 have u4: "runAll ?rest ''session'' ''dashboardBalances'' = Some (Inr 24)"
    by (simp only: n2 n3)
  from a b c u1 u2 u4 show ?thesis
    by (intro conjI)
qed




text \<open>
  C9, as the claim states it, fails. Debug mode awaits a screenshot inside the \<open>try\<close>
  block of \<open>login\<close>: when the screenshot fails, the debug run of \<open>initialize\<close> and
  \<open>login\<close> throws where the run without debug completes. Debug mode also launches the
  browser with other options (not headless, devtools, slowMo 50).
\<close>

theorem debug_changes_outcome_counterexample:
  "fresh True = (fresh False)\<lparr>debug := True\<rparr>
   \<and> result (seq (initialize full_disk) (login full_disk sample_credentials) (fresh False)) = Inr ()
   \<and> result (seq (initialize full_disk) (login full_disk sample_credentials) (fresh True))
       = Inl disk_full
   \<and> launchOptions (fresh True) \<noteq> launchOptions (fresh False)"
proof -
  have i: "result (initialize full_disk (fresh d)) = Inr ()"
    and s: "state (initialize full_disk (fresh d)) = ready d" for d
    by (simp_all add: initialize_succeeds full_disk_def quiet_world_def ready_eval fresh_eval)
  have p: "page (ready d) \<noteq> None" and g: "debug (ready d) = d" for d
    by (simp_all add: ready_eval)
  have "result (login full_disk sample_credentials (ready False)) = Inr ()"
    by (simp add: login_run [OF p] g login_calls_def full_disk_def quiet_world_def)
  moreover have "result (login full_disk sample_credentials (ready True)) = Inl disk_full"
    by (simp add: login_run [OF p] g login_calls_def full_disk_def quiet_world_def)
  ultimately have "result (seq (initialize full_disk) (login full_disk sample_credentials) (fresh False)) = Inr ()"
    and "result (seq (initialize full_disk) (login full_disk sample_credentials) (fresh True)) = Inl disk_full"
    by (simp_all add: seq_result i s)
  moreover have "fresh True = (fresh False)\<lparr>debug := True\<rparr>"
    and "launchOptions (fresh True) \<noteq> launchOptions (fresh False)"
    by (simp_all add: fresh_eval launchOptions_def)
  ultimately show ?thesis by simp
qed

text \<open>
  C9, amended. Take an object without debug mode and the same object with debug mode
  on. If launching the browser goes the same way under both sets of launch options and no
  screenshot and no listener registration fails, then \<open>initialize\<close> followed by \<open>login\<close>
  ends the same way in both runs (both complete, or both throw the same error), and both
  make the same calls apart from what debug mode adds or alters: the launch options,
  the event listeners and the screenshots.
\<close>

theorem debug_changes_diagnostics_only:
  assumes "\<not> debug this"
    and "respond w (Launch (launchOptions (this\<lparr>debug := True\<rparr>)))
           = respond w (Launch (launchOptions this))"
    and "\<And>path. respond w (Screenshot path) = None"
    and "\<And>name. respond w (On name) = None"
  shows "result (seq (initialize w) (login w credentials) (this\<lparr>debug := True\<rparr>))
           = result (seq (initialize w) (login w credentials) this)
       \<and> essential (trace (seq (initialize w) (login w credentials) (this\<lparr>debug := True\<rparr>)))
           = essential (trace (seq (initialize w) (login w credentials) this))"
proof -
  let ?d = "this\<lparr>debug := True\<rparr>"
  from assms(1) have pair: "debug_pair ?d this"
    by (simp add: debug_pair_def)
  note i = dp_initialize [OF pair assms(2) assms(3) assms(4)]
  from dp_login [OF assms(3), of credentials] i(2)
  have l: "result (login w credentials (state (initialize w ?d)))
             = result (login w credentials (state (initialize w this)))"
    "essential (trace (login w credentials (state (initialize w ?d))))
       = essential (trace (login w credentials (state (initialize w this))))"
    by (simp_all add: related_def)
  from i l show ?thesis
    by (simp add: seq_result seq_trace essential_append split: sum.splits)
qed

theorem debug_changes_diagnostics_only_witness:
  "\<not> debug (fresh False)
   \<and> respond unreachable_site (Launch (launchOptions ((fresh False)\<lparr>debug := True\<rparr>)))
       = respond unreachable_site (Launch (launchOptions (fresh False)))
   \<and> (\<forall>path. respond unreachable_site (Screenshot path) = None)
   \<and> (\<forall>name. respond unreachable_site (On name) = None)
   \<and> result (seq (initialize unreachable_site) (login unreachable_site sample_credentials)
               ((fresh False)\<lparr>debug := True\<rparr>))
       = result (seq (initialize unreachable_site) (login unreachable_site sample_credentials)
                   (fresh False))
   \<and> essential (trace (seq (initialize unreachable_site) (login unreachable_site sample_credentials)
                          ((fresh False)\<lparr>debug := True\<rparr>)))
       = essential (trace (seq (initialize unreachable_site) (login unreachable_site sample_credentials)
                             (fresh False)))"
proof -
  have a: "\<not> debug (fresh False)"
    by (simp add: fresh_eval)
  have b: "respond unreachable_site (Launch (launchOptions ((fresh False)\<lparr>debug := True\<rparr>)))
             = respond unreachable_site (Launch (launchOptions (fresh False)))"
    and c: "respond unreachable_site (Screenshot path) = None"
    and d: "respond unreachable_site (On name) = None" for path name
    by (simp_all add: unreachable_site_def quiet_world_def)
  from debug_changes_diagnostics_only [OF a b c d, of sample_credentials] a b c d
  show ?thesis by simp
qed

text \<open>
  C10. Called before a page exists, \<open>login\<close> throws an \<open>Error\<close> with the message
  "Page not initialized. Call initialize() first.", makes no library call (no
  navigation, typing or clicking) and leaves the object as it was; in debug mode the
  message is logged, and nothing else happens.
\<close>

theorem login_without_page:
  assumes "page this = None"
  shows "result (login w credentials this) = Inl (JsError ''Error'' ''Page not initialized. Call initialize() first.'')
       \<and> state (login w credentials this) = this
       \<and> calls (trace (login w credentials this)) = []
       \<and> trace (login w credentials this) =
           (if debug this
            then [ConsoleLog [S ''[DEBUG]'', S ''Page not initialized. Call initialize() first.'']]
            else [])"
  using assms by (simp add: login_def seq_def log_def throw_def skip_def not_initialized_def)

theorem login_without_page_witness:
  "page (fresh True) = None
   \<and> result (login quiet_world sample_credentials (fresh True))
       = Inl (JsError ''Error'' ''Page not initialized. Call initialize() first.'')
   \<and> state (login quiet_world sample_credentials (fresh True)) = fresh True
   \<and> calls (trace (login quiet_world sample_credentials (fresh True))) = []
   \<and> trace (login quiet_world sample_credentials (fresh True))
       = [ConsoleLog [S ''[DEBUG]'', S ''Page not initialized. Call initialize() first.'']]"
proof -
  have p: "page (fresh True) = None" and d: "debug (fresh True)"
    by (simp_all add: fresh_eval)
  from login_without_page [OF p, of quiet_world sample_credentials] p d
  show ?thesis by simp
qed

end
